theory Spec2Isabelle
  imports Complex_Main "HOL-Library.Log_Nat"
begin

section \<open>Python floats\<close>

text \<open>
  A Python \<^verbatim>\<open>float\<close> is an IEEE 754 binary64 number. A finite float is a rational, and
  every operation the calculator uses (literals, \<^verbatim>\<open>+\<close>, \<^verbatim>\<open>-\<close>, \<^verbatim>\<open>*\<close>, \<^verbatim>\<open>/\<close>, the conversion
  of an \<^verbatim>\<open>int\<close>, \<^verbatim>\<open>round(x, n)\<close>) returns the exact result rounded to the nearest float,
  ties to the even significand. Floats are modelled as the rationals they denote, with
  that rounding written out: \<open>dbl x\<close> is the float nearest to the rational \<open>x\<close>, so
  \<open>dbl 0.6\<close> is the Python literal \<^verbatim>\<open>0.6\<close> and \<open>fadd x y = dbl (x + y)\<close> is \<^verbatim>\<open>x + y\<close>.

  The significand has 53 bits; the exponent is not bounded. Magnitudes of \<open>2^1024\<close> and
  above, where Python raises \<^verbatim>\<open>OverflowError\<close> on converting an \<^verbatim>\<open>int\<close> and continues with
  \<^verbatim>\<open>inf\<close> elsewhere, and the subnormal range below \<open>2^-1022\<close> are outside the model. When
  the number of requests and the token count are below \<open>10^150\<close> in magnitude, every
  value the calculator computes stays inside these bounds. \<^verbatim>\<open>-0.0\<close> and \<^verbatim>\<open>0.0\<close> compare
  equal in Python and are both the rational 0.
\<close>

definition round_half_even :: "rat \<Rightarrow> int" where
  "round_half_even y =
     (let f = \<lfloor>y\<rfloor>; d = y - of_int f
      in if d < 1 / 2 then f else if 1 / 2 < d then f + 1 else if even f then f else f + 1)"

text \<open>The binary exponent of a positive rational \<open>x\<close>: the \<open>e\<close> with \<open>2^e \<le> x < 2^(e+1)\<close>.\<close>

definition ilog2 :: "rat \<Rightarrow> int" where
  "ilog2 x =
     (case quotient_of x of (a, b) \<Rightarrow>
        let k = bitlen a - bitlen b in if power_int 2 k \<le> x then k else k - 1)"

text \<open>The float nearest to a rational (round to nearest, ties to even, 53 bits).\<close>

definition dbl :: "rat \<Rightarrow> rat" where
  "dbl x =
     (if x = 0 then 0
      else let q = power_int 2 (ilog2 \<bar>x\<bar> - 52) in of_int (round_half_even (x / q)) * q)"

text \<open>
  The floats of the model: an integer significand of at most 53 bits, scaled by a power
  of two.
\<close>

definition is_double :: "rat \<Rightarrow> bool" where
  "is_double y \<longleftrightarrow> (\<exists>m k. \<bar>m\<bar> \<le> 2 ^ 53 \<and> y = of_int m * power_int 2 k)"

definition float_of_int :: "int \<Rightarrow> rat" where
  "float_of_int n = dbl (of_int n)"

definition fadd :: "rat \<Rightarrow> rat \<Rightarrow> rat" where
  "fadd x y = dbl (x + y)"

definition fsub :: "rat \<Rightarrow> rat \<Rightarrow> rat" where
  "fsub x y = dbl (x - y)"

definition fmul :: "rat \<Rightarrow> rat \<Rightarrow> rat" where
  "fmul x y = dbl (x * y)"

text \<open>Float division; the caller checks for a zero divisor, where Python raises.\<close>

definition fdiv :: "rat \<Rightarrow> rat \<Rightarrow> rat" where
  "fdiv x y = dbl (x / y)"

text \<open>
  \<^verbatim>\<open>round(x, n)\<close> on a float, for \<open>n \<ge> 0\<close>: CPython rounds the exact value of \<open>x\<close> to \<open>n\<close>
  decimals, ties to even, and returns the float nearest to that decimal. On an \<^verbatim>\<open>int\<close>,
  \<^verbatim>\<open>round(x, n)\<close> returns \<open>x\<close>; the \<^verbatim>\<open>int\<close>s the calculator rounds are 15, 35, 45, 125 and
  250, which \<open>py_round\<close> returns unchanged as well.
\<close>

definition py_round :: "rat \<Rightarrow> nat \<Rightarrow> rat" where
  "py_round x n = dbl (of_int (round_half_even (x * 10 ^ n)) / 10 ^ n)"


section \<open>Data model of \<^verbatim>\<open>cost_calculator.py\<close>\<close>

datatype ModelProvider = OPENAI_GPT4O | OPENAI_GPT4O_MINI | CLAUDE_35_SONNET | LOCAL_LLM

datatype Framework = AUTOGEN | CREWAI | LANGCHAIN | LANGGRAPH | SEMANTIC_KERNEL

text \<open>\<^verbatim>\<open>for framework in Framework\<close> iterates in declaration order.\<close>

definition Framework_members :: "Framework list" where
  "Framework_members = [AUTOGEN, CREWAI, LANGCHAIN, LANGGRAPH, SEMANTIC_KERNEL]"

fun Framework_value :: "Framework \<Rightarrow> string" where
  "Framework_value AUTOGEN = ''autogen''"
| "Framework_value CREWAI = ''crewai''"
| "Framework_value LANGCHAIN = ''langchain''"
| "Framework_value LANGGRAPH = ''langgraph''"
| "Framework_value SEMANTIC_KERNEL = ''semantic_kernel''"

record PricingData =
  input_cost :: rat
  output_cost :: rat

definition average_cost :: "PricingData \<Rightarrow> rat" where
  "average_cost p = fadd (fmul (input_cost p) (dbl 0.6)) (fmul (output_cost p) (dbl 0.4))"

fun MODEL_PRICING :: "ModelProvider \<Rightarrow> PricingData" where
  "MODEL_PRICING OPENAI_GPT4O = \<lparr>input_cost = dbl 5.00, output_cost = dbl 20.00\<rparr>"
| "MODEL_PRICING OPENAI_GPT4O_MINI = \<lparr>input_cost = dbl 0.15, output_cost = dbl 0.60\<rparr>"
| "MODEL_PRICING CLAUDE_35_SONNET = \<lparr>input_cost = dbl 3.00, output_cost = dbl 15.00\<rparr>"
| "MODEL_PRICING LOCAL_LLM = \<lparr>input_cost = dbl 0.05, output_cost = dbl 0.05\<rparr>"

record FrameworkData =
  avg_tokens_per_request :: int
  efficiency_score :: rat
  overhead_multiplier :: rat
  description :: string

fun FRAMEWORK_METADATA :: "Framework \<Rightarrow> FrameworkData" where
  "FRAMEWORK_METADATA SEMANTIC_KERNEL =
     \<lparr>avg_tokens_per_request = 1180 + 620, efficiency_score = dbl 0.96,
      overhead_multiplier = dbl 1.04, description = ''Enterprise integration''\<rparr>"
| "FRAMEWORK_METADATA AUTOGEN =
     \<lparr>avg_tokens_per_request = 1320 + 780, efficiency_score = dbl 0.93,
      overhead_multiplier = dbl 1.12, description = ''Research & development''\<rparr>"
| "FRAMEWORK_METADATA CREWAI =
     \<lparr>avg_tokens_per_request = 1450 + 850, efficiency_score = dbl 0.90,
      overhead_multiplier = dbl 1.15, description = ''Multi-agent systems''\<rparr>"
| "FRAMEWORK_METADATA LANGCHAIN =
     \<lparr>avg_tokens_per_request = 1580 + 950, efficiency_score = dbl 0.87,
      overhead_multiplier = dbl 1.16, description = ''Flexible applications''\<rparr>"
| "FRAMEWORK_METADATA LANGGRAPH =
     \<lparr>avg_tokens_per_request = 1680 + 1080, efficiency_score = dbl 0.84,
      overhead_multiplier = dbl 1.20, description = ''Stateful workflows''\<rparr>"

text \<open>The dictionary returned by \<^verbatim>\<open>calculate_monthly_cost\<close>.\<close>

record CostBreakdown =
  api_cost :: rat
  infrastructure_cost :: rat
  monitoring_cost :: rat
  total_cost :: rat
  cost_per_request :: rat

section \<open>The cost engine\<close>

text \<open>
  \<^verbatim>\<open>custom_tokens or framework_data["avg_tokens_per_request"]\<close>: Python's \<^verbatim>\<open>or\<close> takes the
  right operand when the left one is \<^verbatim>\<open>None\<close> or \<^verbatim>\<open>0\<close>.
\<close>

definition calculate_cost_per_request :: "Framework \<Rightarrow> ModelProvider \<Rightarrow> int option \<Rightarrow> rat" where
  "calculate_cost_per_request framework model custom_tokens =
     (let framework_data = FRAMEWORK_METADATA framework;
          pricing = MODEL_PRICING model;
          total_tokens = (case custom_tokens of
                            None \<Rightarrow> avg_tokens_per_request framework_data
                          | Some c \<Rightarrow> if c = 0 then avg_tokens_per_request framework_data else c);
          adjusted_tokens = fmul (float_of_int total_tokens) (overhead_multiplier framework_data);
          cost_per_million = average_cost pricing
      in fmul (fdiv adjusted_tokens (float_of_int 1000000)) cost_per_million)"

definition estimate_infrastructure_cost :: "int \<Rightarrow> rat" where
  "estimate_infrastructure_cost requests_per_month =
     (if requests_per_month < 1000 then 35
      else if requests_per_month < 10000 then
        fadd (float_of_int 85) (fmul (float_of_int (requests_per_month - 1000)) (dbl 0.01))
      else if requests_per_month < 100000 then
        fadd (float_of_int 320) (fmul (float_of_int (requests_per_month - 10000)) (dbl 0.005))
      else
        fadd (float_of_int 850) (fmul (float_of_int (requests_per_month - 100000)) (dbl 0.002)))"

definition estimate_monitoring_cost :: "int \<Rightarrow> rat" where
  "estimate_monitoring_cost requests_per_month =
     (if requests_per_month < 1000 then 15
      else if requests_per_month < 10000 then 45
      else if requests_per_month < 100000 then 125
      else 250)"

definition calculate_monthly_cost ::
  "Framework \<Rightarrow> ModelProvider \<Rightarrow> int \<Rightarrow> int option \<Rightarrow> CostBreakdown" where
  "calculate_monthly_cost framework model requests_per_month custom_tokens =
     (let cost_per_request = calculate_cost_per_request framework model custom_tokens;
          api_cost = fmul cost_per_request (float_of_int requests_per_month);
          infrastructure_cost = estimate_infrastructure_cost requests_per_month;
          monitoring_cost = estimate_monitoring_cost requests_per_month;
          total_cost = fadd (fadd api_cost infrastructure_cost) monitoring_cost
      in \<lparr>api_cost = py_round api_cost 2,
          infrastructure_cost = py_round infrastructure_cost 2,
          monitoring_cost = py_round monitoring_cost 2,
          total_cost = py_round total_cost 2,
          cost_per_request = py_round cost_per_request 4\<rparr>)"


section \<open>The comparator\<close>

text \<open>
  A Python \<^verbatim>\<open>dict\<close> keeps its keys in insertion order: it is an association list, and
  \<^verbatim>\<open>d[k] = v\<close> replaces the value of a key that is present and appends a new key at the end.
\<close>

fun dict_set :: "('k \<times> 'v) list \<Rightarrow> 'k \<Rightarrow> 'v \<Rightarrow> ('k \<times> 'v) list" where
  "dict_set [] k v = [(k, v)]"
| "dict_set ((k', v') # kvs) k v =
     (if k' = k then (k', v) # kvs else (k', v') # dict_set kvs k v)"

text \<open>\<^verbatim>\<open>dict(pairs)\<close> inserts the pairs from left to right.\<close>

definition py_dict :: "('k \<times> 'v) list \<Rightarrow> ('k \<times> 'v) list" where
  "py_dict pairs = foldl (\<lambda>d (k, v). dict_set d k v) [] pairs"

text \<open>\<^verbatim>\<open>str.replace\<close> for one-character arguments, and \<^verbatim>\<open>str.title\<close>, on ASCII text.\<close>

definition py_replace :: "char \<Rightarrow> char \<Rightarrow> string \<Rightarrow> string" where
  "py_replace old new s = map (\<lambda>c. if c = old then new else c) s"

definition is_lower :: "char \<Rightarrow> bool" where
  "is_lower c \<longleftrightarrow> (97::nat) \<le> of_char c \<and> of_char c \<le> (122::nat)"

definition is_upper :: "char \<Rightarrow> bool" where
  "is_upper c \<longleftrightarrow> (65::nat) \<le> of_char c \<and> of_char c \<le> (90::nat)"

definition to_upper :: "char \<Rightarrow> char" where
  "to_upper c = (if is_lower c then char_of (of_char c - (32::nat)) else c)"

definition to_lower :: "char \<Rightarrow> char" where
  "to_lower c = (if is_upper c then char_of (of_char c + (32::nat)) else c)"

fun title_from :: "bool \<Rightarrow> string \<Rightarrow> string" where
  "title_from previous_is_cased [] = []"
| "title_from previous_is_cased (c # cs) =
     (if is_lower c then (if previous_is_cased then c else to_upper c) # title_from True cs
      else if is_upper c then (if previous_is_cased then to_lower c else c) # title_from True cs
      else c # title_from False cs)"

definition py_title :: "string \<Rightarrow> string" where
  "py_title s = title_from False s"

text \<open>
  An entry of the comparison: the cost breakdown with the two keys that
  \<^verbatim>\<open>compare_frameworks\<close> adds to it, \<^verbatim>\<open>"framework_name"\<close> and \<^verbatim>\<open>"description"\<close>. The
  field for the second is \<open>entry_description\<close>, the name \<open>description\<close> being the field
  of the framework metadata.
\<close>

record ComparisonEntry = CostBreakdown +
  framework_name :: string
  entry_description :: string

text \<open>
  \<^verbatim>\<open>sorted(results.items(), key=lambda x: x[1]["total_cost"])\<close> is a stable ascending sort
  on the key, as \<^const>\<open>sort_key\<close> is; the sorted pairs go back into a \<^verbatim>\<open>dict\<close>.
\<close>

definition add_name_and_description :: "Framework \<Rightarrow> CostBreakdown \<Rightarrow> ComparisonEntry" where
  "add_name_and_description framework b =
     \<lparr>api_cost = api_cost b,
      infrastructure_cost = infrastructure_cost b,
      monitoring_cost = monitoring_cost b,
      total_cost = total_cost b,
      cost_per_request = cost_per_request b,
      framework_name = py_title (py_replace (CHR ''_'') (CHR '' '') (Framework_value framework)),
      entry_description = description (FRAMEWORK_METADATA framework)\<rparr>"

definition compare_frameworks ::
  "ModelProvider \<Rightarrow> int \<Rightarrow> int option \<Rightarrow> (string \<times> ComparisonEntry) list" where
  "compare_frameworks model requests_per_month custom_tokens =
     (let results =
            foldl (\<lambda>results framework.
                     dict_set results (Framework_value framework)
                       (add_name_and_description framework
                          (calculate_monthly_cost framework model requests_per_month custom_tokens)))
              [] Framework_members;
          sorted_results = py_dict (sort_key (\<lambda>x. total_cost (snd x)) results)
      in sorted_results)"

text \<open>
  The entries of a comparison before sorting, one for each framework, in the declaration
  order of the enumeration: the reference order for ties.
\<close>

definition entries_in_declaration_order ::
  "ModelProvider \<Rightarrow> int \<Rightarrow> int option \<Rightarrow> (string \<times> ComparisonEntry) list" where
  "entries_in_declaration_order model requests_per_month custom_tokens =
     map (\<lambda>framework.
            (Framework_value framework,
             add_name_and_description framework
               (calculate_monthly_cost framework model requests_per_month custom_tokens)))
       [AUTOGEN, CREWAI, LANGCHAIN, LANGGRAPH, SEMANTIC_KERNEL]"

section \<open>The migration estimator\<close>

datatype py_error = ZeroDivisionError

record MigrationResult =
  current_monthly_cost :: rat
  new_monthly_cost :: rat
  monthly_savings :: rat
  annual_savings :: rat
  savings_percentage :: rat

text \<open>
  The division by \<^verbatim>\<open>current_cost["total_cost"]\<close> raises \<^verbatim>\<open>ZeroDivisionError\<close> when that
  total is zero; nothing else in the function raises.
\<close>

definition estimate_migration_savings ::
  "Framework \<Rightarrow> Framework \<Rightarrow> ModelProvider \<Rightarrow> int \<Rightarrow> py_error + MigrationResult" where
  "estimate_migration_savings from_framework to_framework model requests_per_month =
     (let current_cost = calculate_monthly_cost from_framework model requests_per_month None;
          new_cost = calculate_monthly_cost to_framework model requests_per_month None;
          monthly_savings = fsub (total_cost current_cost) (total_cost new_cost);
          annual_savings = fmul monthly_savings (float_of_int 12)
      in if total_cost current_cost = 0 then Inl ZeroDivisionError
         else
           let savings_percentage =
                 fmul (fdiv monthly_savings (total_cost current_cost)) (float_of_int 100)
           in Inr \<lparr>current_monthly_cost = total_cost current_cost,
                   new_monthly_cost = total_cost new_cost,
                   monthly_savings = py_round monthly_savings 2,
                   annual_savings = py_round annual_savings 2,
                   savings_percentage = py_round savings_percentage 1\<rparr>)"

section \<open>Properties of the float operations\<close>

text \<open>Rounding to the nearest integer, ties to even, is monotone and odd.\<close>

lemma round_half_even_of_int: "round_half_even (of_int n) = n"
  by (simp add: round_half_even_def)

lemma round_half_even_mono:
  assumes "x \<le> y"
  shows "round_half_even x \<le> round_half_even y"
proof (cases "\<lfloor>x\<rfloor> = \<lfloor>y\<rfloor>")
  case True
  with assms show ?thesis
    by (auto simp: round_half_even_def Let_def)
next
  case False
  with assms have "\<lfloor>x\<rfloor> + 1 \<le> \<lfloor>y\<rfloor>"
    using floor_mono [of x y] by linarith
  moreover have "round_half_even x \<le> \<lfloor>x\<rfloor> + 1"
    by (simp add: round_half_even_def Let_def)
  moreover have "\<lfloor>y\<rfloor> \<le> round_half_even y"
    by (simp add: round_half_even_def Let_def)
  ultimately show ?thesis
    by linarith
qed

lemma round_half_even_minus: "round_half_even (- x) = - round_half_even x"
proof (cases "x = of_int \<lfloor>x\<rfloor>")
  case True
  then obtain n where "x = of_int n" ..
  then show ?thesis
    by (simp add: round_half_even_of_int flip: of_int_minus)
next
  case False
  then have "\<lceil>x\<rceil> = \<lfloor>x\<rfloor> + 1"
    by (simp add: ceiling_altdef)
  then have fl: "\<lfloor>- x\<rfloor> = - \<lfloor>x\<rfloor> - 1"
    by (simp add: ceiling_def)
  show ?thesis
    unfolding round_half_even_def Let_def fl
    by (auto simp: algebra_simps)
qed


lemma bitlen_powi_bounds:
  assumes "0 < a"
  shows "power_int 2 (bitlen a - 1) \<le> (of_int a :: rat)" and "(of_int a :: rat) < power_int 2 (bitlen a)"
proof -
  from assms have pos: "0 < bitlen a"
    using bitlen_eq_zero_iff [of a] bitlen_nonneg [of a] by linarith
  from bitlen_bounds [OF assms]
  have lo: "2 ^ nat (bitlen a - 1) \<le> a" and hi: "a < 2 ^ nat (bitlen a)"
    by simp_all
  have "(of_int (2 ^ nat (bitlen a - 1)) :: rat) \<le> of_int a"
    using lo by (simp only: of_int_le_iff)
  then show "power_int 2 (bitlen a - 1) \<le> (of_int a :: rat)"
    using pos by (simp add: power_int_def)
  have "(of_int a :: rat) < of_int (2 ^ nat (bitlen a))"
    using hi by (simp only: of_int_less_iff)
  then show "(of_int a :: rat) < power_int 2 (bitlen a)"
    using pos by (simp add: power_int_def)
qed

lemma ilog2_bounds:
  assumes "0 < x"
  shows "power_int 2 (ilog2 x) \<le> x" and "x < power_int 2 (ilog2 x + 1)"
proof -
  obtain a b where q: "quotient_of x = (a, b)"
    by (cases "quotient_of x")
  then have b: "0 < b" and x: "x = of_int a / of_int b"
    by (simp_all add: quotient_of_denom_pos quotient_of_div)
  with assms have a: "0 < a"
    by (simp add: zero_less_divide_iff)
  define k where "k = bitlen a - bitlen b"
  have il: "ilog2 x = (if power_int 2 k \<le> x then k else k - 1)"
    by (simp add: ilog2_def q k_def Let_def)
  have p2: "\<And>i. (0::rat) < power_int 2 i"
    by simp
  have up: "x < power_int 2 (k + 1)"
  proof -
    have "x * power_int 2 (bitlen b - 1) \<le> x * of_int b"
      using bitlen_powi_bounds(1) [OF b] assms by (simp add: mult_left_mono)
    also have "\<dots> = of_int a"
      using b by (simp add: x)
    also have "\<dots> < power_int 2 (bitlen a)"
      by (rule bitlen_powi_bounds(2) [OF a])
    also have "\<dots> = power_int 2 (k + 1) * power_int 2 (bitlen b - 1)"
      by (simp add: k_def flip: power_int_add)
    finally show ?thesis
      using p2 [of "bitlen b - 1"] by (simp only: mult_less_cancel_right_pos)
  qed
  have lo: "power_int 2 (k - 1) \<le> x"
  proof -
    have "power_int 2 (k - 1) * power_int 2 (bitlen b) = (power_int 2 (bitlen a - 1) :: rat)"
      by (simp add: k_def flip: power_int_add)
    also have "\<dots> \<le> of_int a"
      by (rule bitlen_powi_bounds(1) [OF a])
    also have "\<dots> = x * of_int b"
      using b by (simp add: x)
    also have "\<dots> \<le> x * power_int 2 (bitlen b)"
      using bitlen_powi_bounds(2) [OF b] assms by (simp add: mult_left_mono)
    finally show ?thesis
      using p2 [of "bitlen b"] by (simp only: mult_le_cancel_right_pos)
  qed
  show "power_int 2 (ilog2 x) \<le> x"
    using lo by (simp add: il)
  show "x < power_int 2 (ilog2 x + 1)"
    using up by (simp add: il)
qed



lemma dbl_pos_eq:
  assumes "0 < x"
  shows "dbl x = of_int (round_half_even (x / power_int 2 (ilog2 x - 52))) * power_int 2 (ilog2 x - 52)"
  using assms by (simp add: dbl_def Let_def)

lemma dbl_pos_bounds:
  assumes "0 < x"
  shows "power_int 2 (ilog2 x) \<le> dbl x" and "dbl x \<le> power_int 2 (ilog2 x + 1)"
proof -
  define q :: rat where "q = power_int 2 (ilog2 x - 52)"
  have q: "0 < q"
    by (simp add: q_def)
  have lo: "power_int 2 (ilog2 x) = 2 ^ 52 * q" and hi: "power_int 2 (ilog2 x + 1) = 2 ^ 53 * q"
    by (simp_all add: q_def power_int_diff power_int_add)
  from ilog2_bounds [OF assms] have "2 ^ 52 * q \<le> x" and "x < 2 ^ 53 * q"
    by (simp_all only: lo hi)
  with q have "of_int (2 ^ 52) \<le> x / q" and "x / q \<le> of_int (2 ^ 53)"
    by (simp_all add: pos_le_divide_eq pos_divide_le_eq)
  then have "2 ^ 52 \<le> round_half_even (x / q)" and "round_half_even (x / q) \<le> 2 ^ 53"
    using round_half_even_mono [of "of_int (2 ^ 52)" "x / q"]
      round_half_even_mono [of "x / q" "of_int (2 ^ 53)"]
    by (simp_all only: round_half_even_of_int)
  then have "(of_int (2 ^ 52) :: rat) \<le> of_int (round_half_even (x / q))"
    and "(of_int (round_half_even (x / q)) :: rat) \<le> of_int (2 ^ 53)"
    by (simp_all only: of_int_le_iff)
  with q have "2 ^ 52 * q \<le> of_int (round_half_even (x / q)) * q"
    and "of_int (round_half_even (x / q)) * q \<le> 2 ^ 53 * q"
    by simp_all
  then show "power_int 2 (ilog2 x) \<le> dbl x" and "dbl x \<le> power_int 2 (ilog2 x + 1)"
    by (simp_all only: lo hi dbl_pos_eq [OF assms] q_def)
qed

lemma dbl_pos:
  assumes "0 < x"
  shows "0 < dbl x"
proof -
  have "(0::rat) < power_int 2 (ilog2 x)"
    by simp
  with dbl_pos_bounds(1) [OF assms] show ?thesis
    by linarith
qed

lemma dbl_minus: "dbl (- x) = - dbl x"
  by (simp add: dbl_def Let_def round_half_even_minus)

lemma dbl_zero: "dbl 0 = 0"
  by (simp add: dbl_def)







text \<open>The rounding error of a float operation is at most \<open>2^-53\<close> of the exact result.\<close>

lemma round_half_even_error: "\<bar>of_int (round_half_even y) - y\<bar> \<le> 1 / 2"
proof -
  have "of_int \<lfloor>y\<rfloor> \<le> y" "y < of_int \<lfloor>y\<rfloor> + 1"
    by linarith+
  then show ?thesis
    by (auto simp: round_half_even_def Let_def)
qed

lemma round_half_even_unique:
  assumes "\<bar>y - of_int n\<bar> < 1 / 2"
  shows "round_half_even y = n"
proof -
  have "\<bar>(of_int (round_half_even y) :: rat) - of_int n\<bar> < 1"
    using round_half_even_error [of y] assms by linarith
  then have "\<bar>(of_int (round_half_even y - n) :: rat)\<bar> < of_int 1"
    by simp
  then have "\<bar>round_half_even y - n\<bar> < 1"
    by (simp only: of_int_less_iff flip: of_int_abs)
  then show ?thesis
    by simp
qed



text \<open>
  \<^const>\<open>dbl\<close> is rounding to nearest: its result is a float, and no float is closer to
  the argument. On a tie \<^const>\<open>round_half_even\<close> takes the even significand.
\<close>

lemma round_half_even_nearest: "\<bar>of_int (round_half_even z) - z\<bar> \<le> \<bar>of_int j - z\<bar>"
proof (rule ccontr)
  assume "\<not> \<bar>of_int (round_half_even z) - z\<bar> \<le> \<bar>of_int j - z\<bar>"
  then have less: "\<bar>of_int j - z\<bar> < \<bar>of_int (round_half_even z) - z\<bar>"
    by simp
  with round_half_even_error [of z] have "\<bar>z - of_int j\<bar> < 1 / 2"
    by linarith
  then have "round_half_even z = j"
    by (rule round_half_even_unique)
  with less show False
    by simp
qed

lemma round_half_even_tie:
  assumes "\<bar>of_int (round_half_even z) - z\<bar> = 1 / 2"
  shows "even (round_half_even z)"
proof -
  have "of_int \<lfloor>z\<rfloor> \<le> z" "z < of_int \<lfloor>z\<rfloor> + 1"
    by linarith+
  with assms show ?thesis
    by (auto simp: round_half_even_def Let_def split: if_splits)
qed

lemma is_double_minus: "is_double (- y) \<longleftrightarrow> is_double y"
proof -
  have "is_double (- y)" if "is_double y" for y
  proof -
    from that obtain m k where "\<bar>m\<bar> \<le> 2 ^ 53" "y = of_int m * power_int 2 k"
      by (auto simp: is_double_def)
    then have "\<bar>- m\<bar> \<le> 2 ^ 53" "- y = of_int (- m) * power_int 2 k"
      by simp_all
    then show ?thesis
      unfolding is_double_def by blast
  qed
  from this [of y] this [of "- y"] show ?thesis
    by auto
qed

lemma dbl_is_double: "is_double (dbl x)"
proof -
  have pos: "is_double (dbl x)" if "0 < x" for x
  proof -
    define q :: rat where "q = power_int 2 (ilog2 x - 52)"
    have q: "0 < q"
      by (simp add: q_def)
    have "dbl x \<le> power_int 2 (ilog2 x + 1)"
      by (rule dbl_pos_bounds(2) [OF that])
    also have "\<dots> = 2 ^ 53 * q"
      by (simp add: q_def power_int_diff power_int_add)
    finally have "of_int (round_half_even (x / q)) \<le> (of_int (2 ^ 53) :: rat)"
      using q by (simp add: dbl_pos_eq [OF that] q_def)
    then have "round_half_even (x / q) \<le> 2 ^ 53"
      by (simp only: of_int_le_iff)
    moreover have "0 < of_int (round_half_even (x / q)) * q"
      using dbl_pos [OF that] by (simp only: dbl_pos_eq [OF that] q_def)
    then have "(of_int 0 :: rat) < of_int (round_half_even (x / q))"
      using q by (simp add: zero_less_mult_iff)
    then have "0 < round_half_even (x / q)"
      by (simp only: of_int_less_iff)
    ultimately have "\<bar>round_half_even (x / q)\<bar> \<le> 2 ^ 53"
      by simp
    then show ?thesis
      unfolding is_double_def dbl_pos_eq [OF that] q_def by blast
  qed
  consider "0 < x" | "x = 0" | "x < 0"
    by linarith
  then show ?thesis
  proof cases
    case 1
    then show ?thesis
      by (rule pos)
  next
    case 2
    have "\<bar>0 :: int\<bar> \<le> 2 ^ 53" "(0 :: rat) = of_int 0 * power_int 2 0"
      by simp_all
    then have "is_double 0"
      unfolding is_double_def by blast
    with 2 show ?thesis
      by (simp add: dbl_zero)
  next
    case 3
    then have "is_double (dbl (- x))"
      by (intro pos) simp
    then show ?thesis
      by (simp add: dbl_minus is_double_minus)
  qed
qed

lemma dbl_nearest_pos:
  assumes "0 < x" and "is_double y"
  shows "\<bar>dbl x - x\<bar> \<le> \<bar>y - x\<bar>"
proof -
  define q :: rat where "q = power_int 2 (ilog2 x - 52)"
  have q: "0 < q"
    by (simp add: q_def)
  have grid: "\<bar>dbl x - x\<bar> \<le> \<bar>of_int j * q - x\<bar>" for j
  proof -
    have "dbl x - x = (of_int (round_half_even (x / q)) - x / q) * q"
      using q by (simp add: dbl_pos_eq [OF assms(1)] q_def left_diff_distrib)
    then have "\<bar>dbl x - x\<bar> = \<bar>of_int (round_half_even (x / q)) - x / q\<bar> * q"
      using q by (simp add: abs_mult)
    also have "\<dots> \<le> \<bar>of_int j - x / q\<bar> * q"
      using q by (intro mult_right_mono round_half_even_nearest) simp
    also have "\<dots> = \<bar>(of_int j - x / q) * q\<bar>"
      using q by (simp add: abs_mult)
    also have "(of_int j - x / q) * q = of_int j * q - x"
      using q by (simp add: left_diff_distrib)
    finally show ?thesis .
  qed
  from assms(2) obtain m k where m: "\<bar>m\<bar> \<le> 2 ^ 53" and y: "y = of_int m * power_int 2 k"
    by (auto simp: is_double_def)
  show ?thesis
  proof (cases "ilog2 x - 52 \<le> k")
    case True
    define j where "j = nat (k - (ilog2 x - 52))"
    from True have "k = int j + (ilog2 x - 52)"
      by (simp add: j_def)
    moreover have "(power_int 2 (int j + (ilog2 x - 52)) :: rat) = 2 ^ j * q"
      by (simp add: power_int_add q_def)
    ultimately have "(power_int 2 k :: rat) = 2 ^ j * q"
      by simp
    then have "y = of_int (m * 2 ^ j) * q"
      by (simp add: y)
    then show ?thesis
      using grid [of "m * 2 ^ j"] by (simp only:)
  next
    case False
    then have "k + 53 \<le> ilog2 x"
      by simp
    then have "(power_int 2 (k + 53) :: rat) \<le> power_int 2 (ilog2 x)"
      by (intro power_int_increasing) simp_all
    also have "\<dots> \<le> x"
      by (rule ilog2_bounds(1) [OF assms(1)])
    finally have x: "2 ^ 53 * power_int 2 k \<le> x"
      by (simp add: power_int_add mult.commute)
    have "\<bar>y\<bar> = of_int \<bar>m\<bar> * power_int 2 k"
      by (simp add: y abs_mult)
    also have "\<dots> \<le> of_int (2 ^ 53) * power_int 2 k"
      using m by (intro mult_right_mono) (simp_all only: of_int_le_iff, simp)
    finally have "y \<le> 2 ^ 53 * power_int 2 k"
      by simp
    moreover have "power_int 2 (ilog2 x) = of_int (2 ^ 52) * q"
      by (simp add: q_def power_int_diff)
    then have "\<bar>dbl x - x\<bar> \<le> \<bar>power_int 2 (ilog2 x) - x\<bar>"
      using grid [of "2 ^ 52"] by simp
    moreover have "(2 ^ 53 * power_int 2 k :: rat) \<le> power_int 2 (ilog2 x)"
      using \<open>(power_int 2 (k + 53) :: rat) \<le> power_int 2 (ilog2 x)\<close>
      by (simp add: power_int_add mult.commute)
    ultimately show ?thesis
      using ilog2_bounds(1) [OF assms(1)] by linarith
  qed
qed

lemma dbl_nearest:
  assumes "is_double y"
  shows "\<bar>dbl x - x\<bar> \<le> \<bar>y - x\<bar>"
proof -
  consider "0 < x" | "x = 0" | "x < 0"
    by linarith
  then show ?thesis
  proof cases
    case 1
    then show ?thesis
      using assms by (rule dbl_nearest_pos)
  next
    case 2
    then show ?thesis
      by (simp add: dbl_zero)
  next
    case 3
    then have "\<bar>dbl (- x) - (- x)\<bar> \<le> \<bar>(- y) - (- x)\<bar>"
      using assms by (intro dbl_nearest_pos) (simp_all add: is_double_minus)
    then show ?thesis
      by (simp add: dbl_minus abs_minus_commute)
  qed
qed

lemma dbl_idem: "is_double y \<Longrightarrow> dbl y = y"
  using dbl_nearest [of y y] by simp

text \<open>Well-known values of Python float arithmetic, as a check of the model.\<close>

lemma python_float_facts:
  "fadd (dbl 0.1) (dbl 0.2) \<noteq> dbl 0.3"
  "py_round (dbl 2.675) 2 = dbl 2.67"
  "py_round (dbl 0.5) 0 = 0"
  "py_round (dbl 1.5) 0 = 2"
  "float_of_int 9007199254740993 = 9007199254740992"
  by code_simp+

section \<open>Sign and monotonicity of the cost engine\<close>





























lemma py_round_tier_constants:
  "py_round 15 2 = 15" "py_round 35 2 = 35" "py_round 45 2 = 45" "py_round 125 2 = 125"
  "py_round 250 2 = 250"
  by code_simp+





section \<open>The dictionary operations of the comparator\<close>

lemma dict_set_fresh: "k \<notin> fst ` set kvs \<Longrightarrow> dict_set kvs k v = kvs @ [(k, v)]"
  by (induction kvs) auto

lemma foldl_dict_set_distinct:
  "distinct (map fst (acc @ pairs)) \<Longrightarrow>
     foldl (\<lambda>d (k, v). dict_set d k v) acc pairs = acc @ pairs"
proof (induction pairs arbitrary: acc)
  case Nil
  then show ?case by simp
next
  case (Cons p pairs)
  obtain k v where p: "p = (k, v)"
    by (cases p)
  from Cons.prems have fresh: "k \<notin> fst ` set acc"
    by (auto simp: p)
  from Cons.prems have "distinct (map fst ((acc @ [(k, v)]) @ pairs))"
    by (simp add: p)
  from Cons.IH [OF this] show ?case
    by (simp add: p dict_set_fresh [OF fresh])
qed

lemma py_dict_distinct: "distinct (map fst pairs) \<Longrightarrow> py_dict pairs = pairs"
  using foldl_dict_set_distinct [of "[]" pairs] by (simp add: py_dict_def)

lemma results_in_declaration_order:
  "foldl (\<lambda>results framework.
            dict_set results (Framework_value framework)
              (add_name_and_description framework (calculate_monthly_cost framework model r t)))
     [] Framework_members
   = entries_in_declaration_order model r t"
  by (simp add: Framework_members_def entries_in_declaration_order_def)

lemma keys_in_declaration_order:
  "map fst (entries_in_declaration_order model r t)
     = [''autogen'', ''crewai'', ''langchain'', ''langgraph'', ''semantic_kernel'']"
  by (simp add: entries_in_declaration_order_def)

lemma distinct_keys_sort_key:
  assumes "distinct (map fst xs)"
  shows "distinct (map fst (sort_key f xs))"
proof (rule card_distinct)
  have "card (set (map fst (sort_key f xs))) = card (set (map fst xs))"
    by simp
  also have "\<dots> = length (map fst xs)"
    using assms by (rule distinct_card)
  finally show "card (set (map fst (sort_key f xs))) = length (map fst (sort_key f xs))"
    by simp
qed

lemma compare_frameworks_sorted_entries:
  "compare_frameworks model r t
     = sort_key (\<lambda>x. total_cost (snd x)) (entries_in_declaration_order model r t)"
proof -
  have "distinct (map fst (entries_in_declaration_order model r t))"
    by (simp add: keys_in_declaration_order)
  then have "distinct (map fst (sort_key (\<lambda>x. total_cost (snd x)) (entries_in_declaration_order model r t)))"
    by (rule distinct_keys_sort_key)
  then show ?thesis
    by (simp add: compare_frameworks_def results_in_declaration_order py_dict_distinct)
qed

section \<open>The worked example\<close>

lemma autogen_gpt4o_10000:
  "calculate_monthly_cost AUTOGEN OPENAI_GPT4O 10000 None =
     \<lparr>api_cost = dbl 258.72, infrastructure_cost = 320, monitoring_cost = 125,
      total_cost = dbl 703.72, cost_per_request = dbl 0.0259\<rparr>"
  by code_simp

lemma autogen_gpt4o_inputs:
  "avg_tokens_per_request (FRAMEWORK_METADATA AUTOGEN) = 2100"
  "overhead_multiplier (FRAMEWORK_METADATA AUTOGEN) = dbl 1.12"
  "average_cost (MODEL_PRICING OPENAI_GPT4O) = 11"
  "calculate_cost_per_request AUTOGEN OPENAI_GPT4O None = dbl 0.025872"
  by code_simp+

lemma rounded_per_request_differs: "dbl 0.0259 \<noteq> dbl 0.025872" "dbl 0.0259 \<noteq> 0.025872"
  by code_simp+

text \<open>
  C1. \<^verbatim>\<open>calculate_monthly_cost(AUTOGEN, OPENAI_GPT4O, 10000)\<close> without custom tokens: the
  framework average is 2100 tokens, the overhead multiplier 1.12 and the blended cost 11,
  so the cost of one request is the float 0.025872. The returned breakdown has
  \<^verbatim>\<open>api_cost\<close> 258.72, \<^verbatim>\<open>infrastructure_cost\<close> 320, \<^verbatim>\<open>monitoring_cost\<close> 125 and
  \<^verbatim>\<open>total_cost\<close> 703.72; its \<^verbatim>\<open>cost_per_request\<close> is that cost rounded to four decimals,
  0.0259.
\<close>

theorem autogen_gpt4o_example:
  "avg_tokens_per_request (FRAMEWORK_METADATA AUTOGEN) = 2100
   \<and> overhead_multiplier (FRAMEWORK_METADATA AUTOGEN) = dbl 1.12
   \<and> average_cost (MODEL_PRICING OPENAI_GPT4O) = 11
   \<and> calculate_cost_per_request AUTOGEN OPENAI_GPT4O None = dbl 0.025872
   \<and> calculate_monthly_cost AUTOGEN OPENAI_GPT4O 10000 None =
       \<lparr>api_cost = dbl 258.72, infrastructure_cost = 320, monitoring_cost = 125,
        total_cost = dbl 703.72, cost_per_request = dbl 0.0259\<rparr>"
  by (simp only: autogen_gpt4o_inputs autogen_gpt4o_10000)

text \<open>
  C1 as stated fails: the \<^verbatim>\<open>cost_per_request\<close> of the returned breakdown is not 0.025872,
  neither the float of that literal nor the exact decimal.
\<close>

theorem autogen_gpt4o_cost_per_request_counterexample:
  "cost_per_request (calculate_monthly_cost AUTOGEN OPENAI_GPT4O 10000 None) \<noteq> dbl 0.025872
   \<and> cost_per_request (calculate_monthly_cost AUTOGEN OPENAI_GPT4O 10000 None) \<noteq> 0.025872"
  by (simp only: autogen_gpt4o_10000 CostBreakdown.select_convs rounded_per_request_differs
      simp_thms)

section \<open>Rounding of the breakdown\<close>













section \<open>The comparison\<close>


text \<open>When every total is the same, the result is in declaration order.\<close>

lemma local_llm_one_request_each:
  "total_cost (calculate_monthly_cost AUTOGEN LOCAL_LLM 1 None) = 50"
  "total_cost (calculate_monthly_cost CREWAI LOCAL_LLM 1 None) = 50"
  "total_cost (calculate_monthly_cost LANGCHAIN LOCAL_LLM 1 None) = 50"
  "total_cost (calculate_monthly_cost LANGGRAPH LOCAL_LLM 1 None) = 50"
  "total_cost (calculate_monthly_cost SEMANTIC_KERNEL LOCAL_LLM 1 None) = 50"
  by code_simp+

lemma local_llm_one_request: "total_cost (calculate_monthly_cost framework LOCAL_LLM 1 None) = 50"
  by (cases framework) (simp_all only: local_llm_one_request_each)

lemma compare_frameworks_all_tied:
  "map (\<lambda>x. (fst x, total_cost (snd x))) (compare_frameworks LOCAL_LLM 1 None) =
     [(''autogen'', 50), (''crewai'', 50), (''langchain'', 50), (''langgraph'', 50),
      (''semantic_kernel'', 50)]"
  by (simp add: compare_frameworks_sorted_entries entries_in_declaration_order_def
      add_name_and_description_def local_llm_one_request)

section \<open>Monotonicity in the number of requests\<close>




section \<open>Migration savings\<close>





text \<open>
  The precondition matters: at a negative number of requests the total of the current
  framework can round to zero, and the division raises.
\<close>

lemma migration_zero_division_example:
  "estimate_migration_savings SEMANTIC_KERNEL LANGCHAIN LOCAL_LLM (- 534188)
     = Inl ZeroDivisionError"
  by code_simp

section \<open>The tier boundary\<close>

lemma infrastructure_boundary:
  "py_round (estimate_infrastructure_cost 1000) 2 = 85"
  "py_round (estimate_infrastructure_cost 999) 2 = 35"
  by code_simp+

lemma infrastructure_unrounded_at_1000: "estimate_infrastructure_cost 1000 = 85"
  by code_simp

text \<open>
  C7. At exactly 1000 requests the infrastructure cost returned by the cost engine is 85,
  the start of the second tier (\<open>85 + (1000 - 1000) * 0.01\<close>); the basic tier of 35
  ends at 999 requests.
\<close>

theorem infrastructure_cost_at_1000:
  "infrastructure_cost (calculate_monthly_cost framework model 1000 custom_tokens) = 85
   \<and> infrastructure_cost (calculate_monthly_cost framework model 999 custom_tokens) = 35"
  by (simp add: calculate_monthly_cost_def Let_def infrastructure_boundary)

text \<open>C7 as stated fails: at 1000 requests the infrastructure cost is not 35.\<close>

theorem infrastructure_cost_at_1000_counterexample:
  "estimate_infrastructure_cost 1000 \<noteq> 35
   \<and> infrastructure_cost (calculate_monthly_cost AUTOGEN OPENAI_GPT4O 1000 None) \<noteq> 35"
proof
  show "estimate_infrastructure_cost 1000 \<noteq> 35"
    by (simp add: infrastructure_unrounded_at_1000)
  show "infrastructure_cost (calculate_monthly_cost AUTOGEN OPENAI_GPT4O 1000 None) \<noteq> 35"
    by (simp add: calculate_monthly_cost_def Let_def infrastructure_boundary)
qed

section \<open>Inputs that are not positive\<close>




section \<open>A custom token count of zero\<close>


end
